theory Spec2Isabelle
  imports Main "HOL-Library.Word"
begin

unbundle bit_operations_syntax

section \<open>The ASCII JSON writer of sijson (include/sijson/writer.hpp)\<close>

text \<open>
  The development embeds \<^verbatim>\<open>raw_ascii_writer\<close> (the token encoders) and
  \<^verbatim>\<open>ascii_writer\<close> (the grammar-checking writer) of \<^verbatim>\<open>writer.hpp\<close>.
  The output stream is the list of bytes written so far; an exception is a value of
  type \<open>error\<close> returned next to the state reached when it was thrown, so that what
  a failing call has already written stays visible.
\<close>

subsection \<open>Errors\<close>

text \<open>
  \<^item> \<open>NullKey\<close>: \<^verbatim>\<open>std::invalid_argument("Key is null.")\<close>;
  \<^item> \<open>InvalidNumericValue\<close>: \<^verbatim>\<open>std::invalid_argument("Value is NAN or infinity.")\<close>;
  \<^item> \<open>GrammarViolation\<close>: the \<^verbatim>\<open>std::runtime_error\<close> of a broken grammar rule
    (\<^verbatim>\<open>EXSTR_multi_root\<close> and the rule checks of \<^verbatim>\<open>rw_base\<close>);
  \<^item> \<open>AssertionFailure\<close>: an \<^verbatim>\<open>assert(false)\<close> of the source was reached;
  \<^item> \<open>UndefinedBehaviour\<close>: the C++ has no defined result (a write before the start
    of a character buffer, \<^verbatim>\<open>top()\<close> or \<^verbatim>\<open>pop()\<close> of an empty stack).
\<close>

datatype error =
    NullKey
  | InvalidNumericValue
  | GrammarViolation
  | AssertionFailure
  | UndefinedBehaviour

subsection \<open>The output stream\<close>

text \<open>
  \<^verbatim>\<open>wrap_std_ostream_t<Ostream>\<close> is an external collaborator. It is modelled as
  an in-memory sink: the bytes written so far, oldest first. \<^verbatim>\<open>put(c)\<close> appends a
  byte, \<^verbatim>\<open>put(c, count)\<close> appends it \<open>count\<close> times, \<^verbatim>\<open>putn(s, n)\<close> appends
  \<open>n\<close> bytes.
\<close>

definition put :: "char \<Rightarrow> string \<Rightarrow> string" where
  "put c stream = stream @ [c]"

definition put_count :: "char \<Rightarrow> nat \<Rightarrow> string \<Rightarrow> string" where
  "put_count c num stream = stream @ replicate num c"

definition putn :: "string \<Rightarrow> string \<Rightarrow> string" where
  "putn bytes stream = stream @ bytes"

subsection \<open>Structural tokens and literals of \<^verbatim>\<open>raw_ascii_writer\<close>\<close>

definition write_start_object :: "string \<Rightarrow> string" where
  "write_start_object stream = put (CHR ''{'') stream"

definition write_end_object :: "string \<Rightarrow> string" where
  "write_end_object stream = put (CHR ''}'') stream"

definition write_start_array :: "string \<Rightarrow> string" where
  "write_start_array stream = put (CHR ''['') stream"

definition write_end_array :: "string \<Rightarrow> string" where
  "write_end_array stream = put (CHR '']'') stream"

definition write_key_separator :: "string \<Rightarrow> string" where
  "write_key_separator stream = put (CHR '':'') stream"

definition write_item_separator :: "string \<Rightarrow> string" where
  "write_item_separator stream = put (CHR '','') stream"

definition write_bool :: "bool \<Rightarrow> string \<Rightarrow> string" where
  "write_bool v stream = (if v then putn ''true'' stream else putn ''false'' stream)"

definition write_null :: "string \<Rightarrow> string" where
  "write_null stream = putn ''null'' stream"

definition raw_write_newline :: "string \<Rightarrow> string" where
  "raw_write_newline stream = put (CHR 0x0A) stream"

definition raw_write_whitespace :: "nat \<Rightarrow> string \<Rightarrow> string" where
  "raw_write_whitespace num_spaces stream = put_count (CHR '' '') num_spaces stream"

subsection \<open>Integers: \<^verbatim>\<open>write_uint_impl\<close> and \<^verbatim>\<open>write_int_impl\<close>\<close>

text \<open>
  An integer of \<open>w\<close> bits is an \<open>'a word\<close> with \<open>LENGTH('a) = w\<close>; a signed one
  is read with \<open>sint\<close>. The do-while loop of both encoders is \<open>write_digits\<close>:
  \<open>strbuf\<close> is the character buffer, \<open>strp\<close> the index the pointer \<^verbatim>\<open>strp\<close>
  stands at (\<open>length strbuf\<close> is \<^verbatim>\<open>strbuf_end\<close>). \<^verbatim>\<open>*(--strp) = c\<close> with
  \<open>strp = 0\<close> would write before the buffer: the model returns \<open>None\<close> there.
\<close>

function write_digits :: "string \<Rightarrow> nat \<Rightarrow> 'a::len word \<Rightarrow> (string \<times> nat) option" where
  "write_digits strbuf strp v =
     (if strp = 0 then None
      else let strp' = strp - 1;
               strbuf' = strbuf[strp' := char_of (of_char (CHR ''0'') + unat (v mod 10))];
               v' = v div 10
           in if v' \<noteq> 0 then write_digits strbuf' strp' v' else Some (strbuf', strp'))"
  by pat_completeness auto
termination
  by (relation "measure (\<lambda>(strbuf, strp, v). strp)") auto

declare write_digits.simps [simp del]

text \<open>
  The buffer \<^verbatim>\<open>char strbuf[iutil::max_chars10<T>::value]\<close> is not initialised; the
  model fills it with NUL bytes, none of which is ever emitted. Its capacity is the
  parameter \<open>cap\<close>, since \<^verbatim>\<open>max_chars10\<close> lives in \<^verbatim>\<open>internal/util.hpp\<close>.
\<close>

definition write_uint_impl :: "nat \<Rightarrow> string \<Rightarrow> 'a::len word \<Rightarrow> error option \<times> string" where
  "write_uint_impl cap stream v =
     (case write_digits (replicate cap (CHR 0x00)) cap v of
        None \<Rightarrow> (Some UndefinedBehaviour, stream)
      | Some (strbuf, strp) \<Rightarrow> (None, putn (drop strp strbuf) stream))"

text \<open>
  Modelled from the spec: \<^verbatim>\<open>iutil::absu\<close> (\<^verbatim>\<open>internal/util.hpp\<close> is not among the
  sources). The spec: "take absolute value via a width-safe unsigned conversion (must
  not overflow for the minimal representable negative value)". The result has the
  unsigned type of the same width.
\<close>

definition absu :: "'a::len word \<Rightarrow> 'a word" where
  "absu v = of_nat (nat \<bar>sint v\<bar>)"

definition write_int_impl :: "nat \<Rightarrow> string \<Rightarrow> 'a::len word \<Rightarrow> error option \<times> string" where
  "write_int_impl cap stream v =
     (case write_digits (replicate cap (CHR 0x00)) cap (absu v) of
        None \<Rightarrow> (Some UndefinedBehaviour, stream)
      | Some (strbuf, strp) \<Rightarrow>
          if sint v < 0 then
            (if strp = 0 then (Some UndefinedBehaviour, stream)
             else (None, putn (drop (strp - 1) (strbuf[strp - 1 := CHR ''-''])) stream))
          else (None, putn (drop strp strbuf) stream))"

text \<open>
  Modelled from the spec: \<^verbatim>\<open>iutil::max_chars10\<close> (\<^verbatim>\<open>internal/util.hpp\<close> is not among
  the sources). The spec: "a fixed-capacity character buffer sized to the maximum
  decimal digit count representable by the integer's bit width"; for a signed type the
  digits are those of the largest magnitude, \<open>2 ^ (w - 1)\<close>, and one more character
  holds the sign that is prepended.
\<close>

fun ndigits :: "nat \<Rightarrow> nat" where
  "ndigits n = (if n < 10 then 1 else Suc (ndigits (n div 10)))"

declare ndigits.simps [simp del]

definition max_chars10 :: "bool \<Rightarrow> nat \<Rightarrow> nat" where
  "max_chars10 is_signed w =
     (if is_signed then Suc (ndigits (2 ^ (w - 1))) else ndigits (2 ^ w - 1))"

subsection \<open>Floating point: \<^verbatim>\<open>write_floating_impl\<close>\<close>

text \<open>
  A \<^verbatim>\<open>float\<close> or \<^verbatim>\<open>double\<close> is its IEEE 754 bit pattern (binary32, binary64).
  \<^verbatim>\<open>std::isfinite\<close> is false exactly for the patterns whose exponent field is all
  ones (the infinities and the NaNs).
\<close>

datatype floating = Float "32 word" | Double "64 word"

fun isfinite :: "floating \<Rightarrow> bool" where
  "isfinite (Float b) = (drop_bit 23 b AND 0xFF \<noteq> 0xFF)"
| "isfinite (Double b) = (drop_bit 52 b AND 0x7FF \<noteq> 0x7FF)"

text \<open>
  The text of a finite value is produced by the C++ library:
  \<^verbatim>\<open>std::ostream << value\<close> in the classic locale with precision
  \<^verbatim>\<open>max_digits10\<close>, into a \<^verbatim>\<open>memspanbuf\<close> over the local buffer. That
  conversion is the parameter \<open>fmt\<close>: \<open>fmt value\<close> is \<^verbatim>\<open>streambuf.data()\<close>.
\<close>

definition write_floating_impl ::
  "(floating \<Rightarrow> string) \<Rightarrow> string \<Rightarrow> floating \<Rightarrow> error option \<times> string" where
  "write_floating_impl fmt stream v =
     (if \<not> isfinite v then (Some InvalidNumericValue, stream)
      else (None, putn (fmt v) stream))"

text \<open>
  \<^verbatim>\<open>number\<close> (\<^verbatim>\<open>number.hpp\<close>) is a tagged union of the four numeric kinds;
  \<^verbatim>\<open>std::intmax_t\<close> and \<^verbatim>\<open>std::uintmax_t\<close> have 64 bits. The \<^verbatim>\<open>default\<close> branch
  of the switch (\<^verbatim>\<open>assert(false)\<close>) has no tag to reach it.
\<close>

datatype number =
    TYPE_float "32 word"
  | TYPE_double "64 word"
  | TYPE_intmax_t "64 word"
  | TYPE_uintmax_t "64 word"

fun write_number_impl :: "(floating \<Rightarrow> string) \<Rightarrow> string \<Rightarrow> number \<Rightarrow> error option \<times> string" where
  "write_number_impl fmt stream (TYPE_float v) = write_floating_impl fmt stream (Float v)"
| "write_number_impl fmt stream (TYPE_double v) = write_floating_impl fmt stream (Double v)"
| "write_number_impl fmt stream (TYPE_intmax_t v) = write_int_impl (max_chars10 True 64) stream v"
| "write_number_impl fmt stream (TYPE_uintmax_t v) = write_uint_impl (max_chars10 False 64) stream v"

subsection \<open>Strings: \<^verbatim>\<open>write_string_from\<close>\<close>

text \<open>
  The input stream is the list of bytes it still holds: \<^verbatim>\<open>is.end()\<close> is \<open>[]\<close>,
  \<^verbatim>\<open>is.take()\<close> removes the head. \<open>escape_char\<close> is the \<^verbatim>\<open>switch\<close>: the bytes put
  for one input byte.
\<close>

definition escape_char :: "char \<Rightarrow> string" where
  "escape_char c =
     (if c = CHR 0x08 then [CHR 0x5C, CHR ''b'']
      else if c = CHR 0x0C then [CHR 0x5C, CHR ''f'']
      else if c = CHR 0x0A then [CHR 0x5C, CHR ''n'']
      else if c = CHR 0x0D then [CHR 0x5C, CHR ''r'']
      else if c = CHR 0x09 then [CHR 0x5C, CHR ''t'']
      else if c = CHR 0x22 then [CHR 0x5C, CHR 0x22]
      else if c = CHR 0x5C then [CHR 0x5C, CHR 0x5C]
      else [c])"

fun write_string_loop :: "string \<Rightarrow> string \<Rightarrow> string" where
  "write_string_loop [] stream = stream"
| "write_string_loop (c # inp) stream = write_string_loop inp (putn (escape_char c) stream)"

definition write_string_from :: "string \<Rightarrow> bool \<Rightarrow> string \<Rightarrow> string" where
  "write_string_from inp quoted stream =
     (let s1 = (if quoted then put (CHR 0x22) stream else stream);
          s2 = write_string_loop inp s1
      in if quoted then put (CHR 0x22) s2 else s2)"

text \<open>
  \<^verbatim>\<open>write_string(const char*)\<close> and \<^verbatim>\<open>write_string(const char*, length)\<close>: a
  null pointer is \<open>None\<close> and writes the literal \<^verbatim>\<open>null\<close>; otherwise the argument
  is the bytes the input stream yields.
\<close>

definition write_string :: "string option \<Rightarrow> string \<Rightarrow> string" where
  "write_string v stream =
     (case v of Some s \<Rightarrow> write_string_from s True stream | None \<Rightarrow> write_null stream)"

subsection \<open>\<^verbatim>\<open>raw_ascii_writer::write\<close>: dispatch on the value's type\<close>

text \<open>
  \<^verbatim>\<open>write_t_impl::write\<close> is chosen by overload resolution; the writable values are
  one datatype, a constructor for each overload. \<^verbatim>\<open>int\<close> and \<^verbatim>\<open>unsigned\<close> have
  32 bits, \<^verbatim>\<open>long long\<close> 64.
\<close>

datatype json_value =
    VInt32 "32 word"
  | VInt64 "64 word"
  | VUInt32 "32 word"
  | VUInt64 "64 word"
  | VFloat "32 word"
  | VDouble "64 word"
  | VNumber number
  | VBool bool
  | VCString "string option"
  | VString string
  | VNull

fun write_t :: "(floating \<Rightarrow> string) \<Rightarrow> json_value \<Rightarrow> string \<Rightarrow> error option \<times> string" where
  "write_t fmt (VInt32 v) stream = write_int_impl (max_chars10 True 32) stream v"
| "write_t fmt (VInt64 v) stream = write_int_impl (max_chars10 True 64) stream v"
| "write_t fmt (VUInt32 v) stream = write_uint_impl (max_chars10 False 32) stream v"
| "write_t fmt (VUInt64 v) stream = write_uint_impl (max_chars10 False 64) stream v"
| "write_t fmt (VFloat v) stream = write_floating_impl fmt stream (Float v)"
| "write_t fmt (VDouble v) stream = write_floating_impl fmt stream (Double v)"
| "write_t fmt (VNumber v) stream = write_number_impl fmt stream v"
| "write_t fmt (VBool v) stream = (None, write_bool v stream)"
| "write_t fmt (VCString v) stream = (None, write_string v stream)"
| "write_t fmt (VString v) stream = (None, write_string_from v True stream)"
| "write_t fmt VNull stream = (None, write_null stream)"

subsection \<open>The destructor of \<^verbatim>\<open>raw_ascii_writer\<close>\<close>

text \<open>
  \<^verbatim>\<open>try { m_stream.flush(); } catch (...) {}\<close>. The sink's \<^verbatim>\<open>flush\<close> is a parameter:
  it returns the exception it throws, if any, and the sink it leaves. The sink and the
  exception are of any type.
\<close>

definition raw_ascii_writer_dtor :: "('s \<Rightarrow> 'e option \<times> 's) \<Rightarrow> 's \<Rightarrow> 'e option \<times> 's" where
  "raw_ascii_writer_dtor flush stream = (case flush stream of (thrown, stream') \<Rightarrow> (None, stream'))"

subsection \<open>The node stack\<close>

text \<open>
  \<^verbatim>\<open>doc_node_t\<close> (\<^verbatim>\<open>common.hpp\<close>) with the enumerators \<^verbatim>\<open>writer.hpp\<close> names, and
  \<^verbatim>\<open>node_info\<close>, which \<^verbatim>\<open>writer.hpp\<close> builds from a type alone
  (\<^verbatim>\<open>m_nodes.push({ DOCNODE_key })\<close>) and reads through \<^verbatim>\<open>type\<close> and
  \<^verbatim>\<open>has_children\<close>. \<^verbatim>\<open>m_nodes\<close> is a \<^verbatim>\<open>std::stack\<close>: the head of the list is
  \<^verbatim>\<open>top()\<close>. The writer's only other state is the stream of its
  \<^verbatim>\<open>raw_ascii_writer\<close> \<^verbatim>\<open>m_rw\<close>.
\<close>

datatype doc_node_t = DOCNODE_root | DOCNODE_object | DOCNODE_array | DOCNODE_key | DOCNODE_value

record node_info =
  type :: doc_node_t
  has_children :: bool

definition new_node :: "doc_node_t \<Rightarrow> node_info" where
  "new_node t = \<lparr>type = t, has_children = False\<rparr>"

record ascii_writer =
  m_nodes :: "node_info list"
  m_stream :: string

type_synonym operation = "ascii_writer \<Rightarrow> error option \<times> ascii_writer"

text \<open>
  Statements in sequence: the second runs in the state the first leaves, unless the
  first threw. \<open>raw\<close> and \<open>raw_try\<close> run a function of \<^verbatim>\<open>m_rw\<close> on the stream.
\<close>

definition seq :: "operation \<Rightarrow> operation \<Rightarrow> operation" where
  "seq f g w = (case f w of (None, w') \<Rightarrow> g w' | (Some e, w') \<Rightarrow> (Some e, w'))"

definition raise :: "error \<Rightarrow> operation" where
  "raise e w = (Some e, w)"

definition raw :: "(string \<Rightarrow> string) \<Rightarrow> operation" where
  "raw f w = (None, w\<lparr>m_stream := f (m_stream w)\<rparr>)"

definition raw_try :: "(string \<Rightarrow> error option \<times> string) \<Rightarrow> operation" where
  "raw_try f w = (case f (m_stream w) of (e, stream') \<Rightarrow> (e, w\<lparr>m_stream := stream'\<rparr>))"

definition push :: "node_info \<Rightarrow> operation" where
  "push n w = (None, w\<lparr>m_nodes := n # m_nodes w\<rparr>)"

definition pop :: operation where
  "pop w = (case m_nodes w of
              [] \<Rightarrow> (Some UndefinedBehaviour, w)
            | tp # rest \<Rightarrow> (None, w\<lparr>m_nodes := rest\<rparr>))"

subsection \<open>The grammar rules of \<^verbatim>\<open>rw_base\<close>\<close>

text \<open>
  Modelled from the spec: \<^verbatim>\<open>rw_base::assert_rule\<close> (\<^verbatim>\<open>internal/impl_rw.hpp\<close> is not
  among the sources). The spec, 4.1: "\<^verbatim>\<open>OBJECT\<close>/\<^verbatim>\<open>ARRAY\<close>/scalar-\<^verbatim>\<open>VALUE\<close> are
  legal when top is \<^verbatim>\<open>ROOT\<close> (only if \<^verbatim>\<open>ROOT\<close> has no child yet), \<^verbatim>\<open>ARRAY\<close>
  (always), or \<^verbatim>\<open>KEY\<close> (exactly once, then the \<^verbatim>\<open>KEY\<close> node is popped as
  resolved). \<^verbatim>\<open>KEY\<close> is legal only when tp is \<^verbatim>\<open>OBJECT\<close>. Illegal combinations
  fail with \<^verbatim>\<open>GrammarViolation\<close>". \<open>rule_ok t tp\<close>: a node of type \<open>t\<close> may follow
  under \<open>tp\<close>. \<^verbatim>\<open>assert_rule<t1, t2>\<close> checks \<open>t1\<close> under the tp and \<open>t2\<close> under
  a fresh \<open>t1\<close> node, as the fused key-value write needs.
\<close>

fun rule_ok :: "doc_node_t \<Rightarrow> node_info \<Rightarrow> bool" where
  "rule_ok DOCNODE_root tp = False"
| "rule_ok DOCNODE_key tp = (type tp = DOCNODE_object)"
| "rule_ok t tp =
     (case type tp of
        DOCNODE_root \<Rightarrow> \<not> has_children tp
      | DOCNODE_array \<Rightarrow> True
      | DOCNODE_key \<Rightarrow> True
      | DOCNODE_object \<Rightarrow> False
      | DOCNODE_value \<Rightarrow> False)"

fun assert_rule_nodes :: "doc_node_t list \<Rightarrow> node_info list \<Rightarrow> error option" where
  "assert_rule_nodes [] nodes = None"
| "assert_rule_nodes (t # ts) [] = Some UndefinedBehaviour"
| "assert_rule_nodes (t # ts) (tp # rest) =
     (if rule_ok t tp then assert_rule_nodes ts (new_node t # tp # rest)
      else Some GrammarViolation)"

definition assert_rule :: "doc_node_t list \<Rightarrow> operation" where
  "assert_rule types w = (assert_rule_nodes types (m_nodes w), w)"

text \<open>
  Modelled from the spec: \<^verbatim>\<open>rw_base::end_child_node\<close>. The spec, 4.1: "After any
  successful child emission, the machine marks the parent's \<^verbatim>\<open>has_children = true\<close>
  and, if the emitted child was itself a scalar or a just-closed container, considers
  the child fully resolved (pops transient \<^verbatim>\<open>KEY\<close>/\<^verbatim>\<open>VALUE\<close> markers)"; and
  \<^verbatim>\<open>writer.hpp\<close>: "key node is popped before it can have children".
\<close>

definition end_child_node :: operation where
  "end_child_node w =
     (case m_nodes w of
        [] \<Rightarrow> (Some UndefinedBehaviour, w)
      | tp # rest \<Rightarrow>
          (case (if type tp = DOCNODE_key then rest else tp # rest) of
             [] \<Rightarrow> (Some UndefinedBehaviour, w\<lparr>m_nodes := []\<rparr>)
           | parent # below \<Rightarrow>
               (None, w\<lparr>m_nodes := parent\<lparr>has_children := True\<rparr> # below\<rparr>)))"

text \<open>
  Modelled from the spec: \<^verbatim>\<open>rw_base::start_node\<close> and \<^verbatim>\<open>rw_base::end_node\<close>, which
  take the token write as a callback. The spec, 4.4: "call \<^verbatim>\<open>enter\<close>, then on success
  emit separator (if \<^verbatim>\<open>needs_separator()\<close>) followed by the opening bracket, then
  push"; 4.1: "\<^verbatim>\<open>exit(kind)\<close> pops the top only if its kind matches \<^verbatim>\<open>kind\<close>; a
  mismatch fails with \<^verbatim>\<open>GrammarViolation\<close>"; section 1: illegal call sequences are
  rejected "before any malformed byte is written", so the check comes before the
  callback. A container that is closed is a completed child of the node below it.
\<close>

definition start_node :: "doc_node_t \<Rightarrow> operation \<Rightarrow> operation" where
  "start_node t do_write = seq (assert_rule [t]) (seq do_write (push (new_node t)))"

definition end_node :: "doc_node_t \<Rightarrow> operation \<Rightarrow> operation" where
  "end_node t do_write w =
     (case m_nodes w of
        [] \<Rightarrow> (Some UndefinedBehaviour, w)
      | tp # rest \<Rightarrow>
          if type tp \<noteq> t then (Some GrammarViolation, w)
          else seq do_write (seq pop end_child_node) w)"

subsection \<open>\<^verbatim>\<open>ascii_writer\<close>\<close>

text \<open>The constructor pushes the root node; the stream is the one it is given.\<close>

definition ascii_writer :: "string \<Rightarrow> ascii_writer" where
  "ascii_writer stream = \<lparr>m_nodes = [new_node DOCNODE_root], m_stream = stream\<rparr>"

definition parent_node :: "ascii_writer \<Rightarrow> doc_node_t option" where
  "parent_node w = (case m_nodes w of [] \<Rightarrow> None | tp # rest \<Rightarrow> Some (type tp))"

definition outpos :: "ascii_writer \<Rightarrow> nat" where
  "outpos w = length (m_stream w)"

text \<open>
  \<^verbatim>\<open>write_separator\<close>. The \<^verbatim>\<open>default: assert(false)\<close> of the switch is reached by a
  \<^verbatim>\<open>KEY\<close> or \<^verbatim>\<open>VALUE\<close> node with children.
\<close>

definition write_separator :: operation where
  "write_separator w =
     (case m_nodes w of
        [] \<Rightarrow> (Some UndefinedBehaviour, w)
      | tp # rest \<Rightarrow>
          if has_children tp then
            (case type tp of
               DOCNODE_object \<Rightarrow> raw write_item_separator w
             | DOCNODE_array \<Rightarrow> raw write_item_separator w
             | DOCNODE_root \<Rightarrow> (Some GrammarViolation, w)
             | DOCNODE_key \<Rightarrow> (Some AssertionFailure, w)
             | DOCNODE_value \<Rightarrow> (Some AssertionFailure, w))
          else if type tp = DOCNODE_key then raw write_key_separator w
          else (None, w))"

definition start_object :: operation where
  "start_object = start_node DOCNODE_object (seq write_separator (raw write_start_object))"

definition start_array :: operation where
  "start_array = start_node DOCNODE_array (seq write_separator (raw write_start_array))"

definition end_object :: operation where
  "end_object = end_node DOCNODE_object (raw write_end_object)"

definition end_array :: operation where
  "end_array = end_node DOCNODE_array (raw write_end_array)"

definition write_key_impl :: "operation \<Rightarrow> bool \<Rightarrow> operation" where
  "write_key_impl do_write is_null =
     (if is_null then raise NullKey
      else seq (assert_rule [DOCNODE_key])
             (seq write_separator (seq do_write (push (new_node DOCNODE_key)))))"

definition write_value_impl :: "(floating \<Rightarrow> string) \<Rightarrow> json_value \<Rightarrow> operation" where
  "write_value_impl fmt v =
     seq (assert_rule [DOCNODE_value])
       (seq write_separator (seq (raw_try (write_t fmt v)) end_child_node))"

definition item_separator_if_children :: operation where
  "item_separator_if_children w =
     (case m_nodes w of
        [] \<Rightarrow> (Some UndefinedBehaviour, w)
      | tp # rest \<Rightarrow> if has_children tp then raw write_item_separator w else (None, w))"

definition write_key_value_impl ::
  "(floating \<Rightarrow> string) \<Rightarrow> operation \<Rightarrow> bool \<Rightarrow> json_value \<Rightarrow> operation" where
  "write_key_value_impl fmt do_write_key is_key_null v =
     (if is_key_null then raise NullKey
      else seq (assert_rule [DOCNODE_key, DOCNODE_value])
             (seq item_separator_if_children
               (seq do_write_key
                 (seq (raw write_key_separator)
                   (seq (raw_try (write_t fmt v)) end_child_node)))))"

text \<open>
  The public calls. A key is a \<^verbatim>\<open>const char*\<close>, with or without a length: \<open>None\<close> is
  the null pointer. The overloads taking a \<^verbatim>\<open>std::basic_string\<close> pass its
  \<^verbatim>\<open>c_str()\<close>, which is never null.
\<close>

definition write_key :: "string option \<Rightarrow> operation" where
  "write_key key = write_key_impl (raw (write_string key)) (key = None)"

definition write_value :: "(floating \<Rightarrow> string) \<Rightarrow> json_value \<Rightarrow> operation" where
  "write_value fmt v = write_value_impl fmt v"

definition write_key_value :: "(floating \<Rightarrow> string) \<Rightarrow> string option \<Rightarrow> json_value \<Rightarrow> operation" where
  "write_key_value fmt key v = write_key_value_impl fmt (raw (write_string key)) (key = None) v"

definition write_newline :: operation where
  "write_newline = raw raw_write_newline"

definition write_whitespace :: "nat \<Rightarrow> operation" where
  "write_whitespace num_spaces = raw (raw_write_whitespace num_spaces)"

subsection \<open>Sequences of calls\<close>

datatype call =
    StartObject
  | StartArray
  | EndObject
  | EndArray
  | WriteKey "string option"
  | WriteValue json_value
  | WriteKeyValue "string option" json_value
  | WriteNewline
  | WriteWhitespace nat

fun exec :: "(floating \<Rightarrow> string) \<Rightarrow> call \<Rightarrow> operation" where
  "exec fmt StartObject = start_object"
| "exec fmt StartArray = start_array"
| "exec fmt EndObject = end_object"
| "exec fmt EndArray = end_array"
| "exec fmt (WriteKey key) = write_key key"
| "exec fmt (WriteValue v) = write_value fmt v"
| "exec fmt (WriteKeyValue key v) = write_key_value fmt key v"
| "exec fmt WriteNewline = write_newline"
| "exec fmt (WriteWhitespace n) = write_whitespace n"

text \<open>A sequence of calls stops at the first exception.\<close>

fun run :: "(floating \<Rightarrow> string) \<Rightarrow> call list \<Rightarrow> operation" where
  "run fmt [] w = (None, w)"
| "run fmt (c # cs) w = seq (exec fmt c) (run fmt cs) w"

subsection \<open>Decimal numerals\<close>

text \<open>
  The decimal representation of a natural number, most significant digit first, and
  the number a string of digits denotes.
\<close>

definition digit_char :: "nat \<Rightarrow> char" where
  "digit_char d = char_of (of_char (CHR ''0'') + d)"

fun decimal :: "nat \<Rightarrow> string" where
  "decimal n = (if n < 10 then [digit_char n] else decimal (n div 10) @ [digit_char (n mod 10)])"

declare decimal.simps [simp del]

definition digit_value :: "char \<Rightarrow> nat" where
  "digit_value c = of_char c - of_char (CHR ''0'')"

definition decimal_value :: "string \<Rightarrow> nat" where
  "decimal_value ds = foldl (\<lambda>acc c. 10 * acc + digit_value c) 0 ds"

definition is_digit :: "char \<Rightarrow> bool" where
  "is_digit c = (of_char (CHR ''0'') \<le> (of_char c :: nat) \<and> (of_char c :: nat) \<le> of_char (CHR ''9''))"

definition is_control :: "char \<Rightarrow> bool" where
  "is_control c = ((of_char c :: nat) < 0x20)"

subsection \<open>Well-formed node stacks\<close>

text \<open>
  The shape of the node stack that the calls keep: the bottom node, and only it, is the
  root; there is no \<^verbatim>\<open>VALUE\<close> node; a \<^verbatim>\<open>KEY\<close> node has no children and lies
  directly on an \<^verbatim>\<open>OBJECT\<close> node.
\<close>

fun wf_nodes :: "node_info list \<Rightarrow> bool" where
  "wf_nodes [] = False"
| "wf_nodes [n] = (type n = DOCNODE_root)"
| "wf_nodes (n # m # rest) =
     ((case type n of
         DOCNODE_key \<Rightarrow> \<not> has_children n \<and> type m = DOCNODE_object
       | DOCNODE_object \<Rightarrow> True
       | DOCNODE_array \<Rightarrow> True
       | DOCNODE_root \<Rightarrow> False
       | DOCNODE_value \<Rightarrow> False)
      \<and> wf_nodes (m # rest))"

text \<open>
  The separator that is due before a child of the top node \<open>tp\<close>: \<^verbatim>\<open>,\<close> under an
  \<^verbatim>\<open>OBJECT\<close> or \<^verbatim>\<open>ARRAY\<close> that has children, \<^verbatim>\<open>:\<close> under a \<^verbatim>\<open>KEY\<close>, nothing
  otherwise.
\<close>

definition separator_due :: "node_info \<Rightarrow> string" where
  "separator_due tp =
     (if has_children tp \<and> (type tp = DOCNODE_object \<or> type tp = DOCNODE_array) then '',''
      else if type tp = DOCNODE_key then '':''
      else [])"

text \<open>A \<^verbatim>\<open>float\<close> or \<^verbatim>\<open>double\<close> as the argument of \<^verbatim>\<open>write_value\<close>.\<close>

fun floating_value :: "floating \<Rightarrow> json_value" where
  "floating_value (Float b) = VFloat b"
| "floating_value (Double b) = VDouble b"

section \<open>Properties of the integer encoders\<close>

subsection \<open>The digit loop\<close>

lemma take_bit_ten: "4 \<le> LENGTH('a::len) \<Longrightarrow> take_bit LENGTH('a) (10::nat) = 10"
proof -
  assume a: "4 \<le> LENGTH('a)"
  have "(2::nat) ^ 4 \<le> 2 ^ LENGTH('a)" using a by (rule power_increasing) simp
  then have "(10::nat) < 2 ^ LENGTH('a)" by simp
  then show ?thesis by (simp add: take_bit_nat_eq_self)
qed

lemma length_decimal: "length (decimal n) = ndigits n"
proof (induction n rule: less_induct)
  case (less n)
  show ?case
  proof (cases "n < 10")
    case True
    then show ?thesis by (simp add: decimal.simps[of n] ndigits.simps[of n])
  next
    case False
    then have "n div 10 < n" by simp
    from less[OF this] False show ?thesis by (simp add: decimal.simps[of n] ndigits.simps[of n])
  qed
qed

lemma write_digits_decimal:
  fixes v :: "'a::len word"
  assumes len: "4 \<le> LENGTH('a)"
  shows "ndigits (unat v) \<le> strp \<Longrightarrow> strp \<le> length strbuf \<Longrightarrow>
    \<exists>strbuf'. write_digits strbuf strp v = Some (strbuf', strp - ndigits (unat v))
      \<and> length strbuf' = length strbuf
      \<and> drop (strp - ndigits (unat v)) strbuf' = decimal (unat v) @ drop strp strbuf"
proof (induction "unat v" arbitrary: v strp strbuf rule: less_induct)
  case less
  let ?c = "char_of (of_char (CHR ''0'') + unat (v mod 10))"
  let ?sb = "strbuf[strp - 1 := ?c]"
  have pos: "0 < strp" using less.prems(1) by (simp add: ndigits.simps[of "unat v"] split: if_splits)
  have um: "unat (v mod 10) = unat v mod 10" by (simp add: unat_mod take_bit_ten[OF len])
  have ud: "unat (v div 10) = unat v div 10" by (simp add: unat_div take_bit_ten[OF len])
  have dr: "drop (strp - 1) ?sb = ?c # drop strp strbuf"
    using pos less.prems(2) by (simp add: Cons_nth_drop_Suc[symmetric] )
  show ?case
  proof (cases "v div 10 = 0")
    case True
    then have small: "unat v < 10" using ud by (metis div_eq_0_iff unat_0 zero_neq_numeral) 
    then have nd: "ndigits (unat v) = 1" by (simp add: ndigits.simps[of "unat v"])
    have "write_digits strbuf strp v = Some (?sb, strp - 1)"
      using True pos by (simp add: write_digits.simps[of strbuf strp v] Let_def)
    moreover have "decimal (unat v) = [?c]"
      using small um by (simp add: decimal.simps[of "unat v"] digit_char_def)
    ultimately show ?thesis using dr nd by simp
  next
    case False
    then have big: "\<not> unat v < 10" using ud by (metis div_less unat_eq_0)
    then have nd: "ndigits (unat v) = Suc (ndigits (unat (v div 10)))"
      by (simp add: ndigits.simps[of "unat v"] ud)
    have lt: "unat (v div 10) < unat v" using big ud by simp
    have p1: "ndigits (unat (v div 10)) \<le> strp - 1" using less.prems(1) nd by simp
    have p2: "strp - 1 \<le> length ?sb" using less.prems(2) by simp
    from less.hyps[OF lt p1 p2]
    obtain sb' where sb': "write_digits ?sb (strp - 1) (v div 10) = Some (sb', strp - 1 - ndigits (unat (v div 10)))"
      "length sb' = length ?sb"
      "drop (strp - 1 - ndigits (unat (v div 10))) sb' = decimal (unat (v div 10)) @ drop (strp - 1) ?sb"
      by blast
    have "write_digits strbuf strp v = write_digits ?sb (strp - 1) (v div 10)"
      using False pos by (simp add: write_digits.simps[of strbuf strp v] Let_def)
    moreover have "decimal (unat v) = decimal (unat (v div 10)) @ [?c]"
      using big um ud by (simp add: decimal.simps[of "unat v"] digit_char_def)
    moreover have "strp - ndigits (unat v) = strp - 1 - ndigits (unat (v div 10))" using nd by simp
    ultimately show ?thesis using sb' dr by simp
  qed
qed

lemma ndigits_mono: "m \<le> n \<Longrightarrow> ndigits m \<le> ndigits n"
proof (induction n arbitrary: m rule: less_induct)
  case (less n)
  show ?case
  proof (cases "n < 10")
    case True
    with less.prems show ?thesis by (simp add: ndigits.simps[of n] ndigits.simps[of m])
  next
    case False
    then have "n div 10 < n" by simp
    moreover have "m div 10 \<le> n div 10" using less.prems by (rule div_le_mono)
    ultimately have "ndigits (m div 10) \<le> ndigits (n div 10)" by (rule less.IH)
    with False show ?thesis by (simp add: ndigits.simps[of n] ndigits.simps[of m])
  qed
qed

lemma digit_value_digit_char: "d < 10 \<Longrightarrow> digit_value (digit_char d) = d"
  by (simp add: digit_value_def digit_char_def)

lemma decimal_value_snoc: "decimal_value (ds @ [c]) = 10 * decimal_value ds + digit_value c"
  by (simp add: decimal_value_def)

lemma decimal_value_decimal: "decimal_value (decimal n) = n"
proof (induction n rule: less_induct)
  case (less n)
  show ?case
  proof (cases "n < 10")
    case True
    then show ?thesis
      by (simp add: decimal.simps[of n] decimal_value_def digit_value_digit_char)
  next
    case False
    then have "n div 10 < n" by simp
    then have "decimal_value (decimal (n div 10)) = n div 10" by (rule less.IH)
    with False show ?thesis
      by (simp add: decimal.simps[of n] decimal_value_snoc digit_value_digit_char)
  qed
qed

lemma is_digit_digit_char: "d < 10 \<Longrightarrow> is_digit (digit_char d)"
  by (simp add: is_digit_def digit_char_def)

lemma decimal_digits: "list_all is_digit (decimal n)"
proof (induction n rule: less_induct)
  case (less n)
  show ?case
  proof (cases "n < 10")
    case True
    then show ?thesis by (simp add: decimal.simps[of n] is_digit_digit_char)
  next
    case False
    then have "n div 10 < n" by simp
    then have "list_all is_digit (decimal (n div 10))" by (rule less.IH)
    with False show ?thesis by (simp add: decimal.simps[of n] is_digit_digit_char)
  qed
qed

lemma decimal_nonempty: "decimal n \<noteq> []"
  by (simp add: decimal.simps[of n])

lemma digit_char_zero_iff: "d < 10 \<Longrightarrow> digit_char d = CHR ''0'' \<longleftrightarrow> d = 0"
proof
  assume d: "d < 10" and "digit_char d = CHR ''0''"
  then have "digit_value (digit_char d) = digit_value (CHR ''0'')" by simp
  with d show "d = 0" by (simp add: digit_value_digit_char) (simp add: digit_value_def)
next
  assume "d = 0" then show "digit_char d = CHR ''0''" by (simp add: digit_char_def char_of_eq_iff)
qed

lemma decimal_no_leading_zero: "0 < n \<Longrightarrow> hd (decimal n) \<noteq> CHR ''0''"
proof (induction n rule: less_induct)
  case (less n)
  show ?case
  proof (cases "n < 10")
    case True
    with less.prems show ?thesis by (simp add: decimal.simps[of n] digit_char_zero_iff)
  next
    case False
    then have "n div 10 < n" "0 < n div 10" by simp_all
    then have "hd (decimal (n div 10)) \<noteq> CHR ''0''" by (rule less.IH)
    with False show ?thesis by (simp add: decimal.simps[of n] decimal_nonempty)
  qed
qed

lemma decimal_zero: "decimal 0 = ''0''"
  by (simp add: decimal.simps[of 0] digit_char_def char_of_eq_iff)

lemma write_uint_impl_decimal_cap:
  fixes v :: "'a::len word"
  assumes len: "4 \<le> LENGTH('a)" and cap: "max_chars10 False LENGTH('a) \<le> cap"
  shows "write_uint_impl cap stream v = (None, stream @ decimal (unat v))"
proof -
  have "unat v < 2 ^ LENGTH('a)" by (rule unsigned_less)
  then have "unat v \<le> 2 ^ LENGTH('a) - 1" by arith
  then have "ndigits (unat v) \<le> ndigits (2 ^ LENGTH('a) - 1)" by (rule ndigits_mono)
  then have p1: "ndigits (unat v) \<le> cap" using cap by (simp add: max_chars10_def)
  have p2: "cap \<le> length (replicate cap (CHR 0x00))" by simp
  from write_digits_decimal[OF len p1 p2]
  obtain sb where "write_digits (replicate cap (CHR 0x00)) cap v = Some (sb, cap - ndigits (unat v))"
    and "drop (cap - ndigits (unat v)) sb = decimal (unat v) @ drop cap (replicate cap (CHR 0x00))"
    by blast
  then show ?thesis by (simp add: write_uint_impl_def putn_def)
qed

lemma unat_absu: "unat (absu (v :: 'a::len word)) = nat \<bar>sint v\<bar>"
proof -
  have "\<bar>sint v\<bar> \<le> 2 ^ (LENGTH('a) - 1)"
    using sint_ge[of v] sint_lt[of v] by simp
  also have "\<dots> < (2::int) ^ LENGTH('a)" by (rule power_strict_increasing) simp_all
  finally have "nat \<bar>sint v\<bar> < 2 ^ LENGTH('a)"
    by (simp add: nat_less_iff)
  then show ?thesis by (simp only: absu_def unat_of_nat mod_less)
qed

lemma write_int_impl_decimal_cap:
  fixes v :: "'a::len word"
  assumes len: "4 \<le> LENGTH('a)" and cap: "max_chars10 True LENGTH('a) \<le> cap"
  shows "write_int_impl cap stream v =
    (None, stream @ (if sint v < 0 then ''-'' else []) @ decimal (nat \<bar>sint v\<bar>))"
proof -
  let ?n = "nat \<bar>sint v\<bar>"
  have "\<bar>sint v\<bar> \<le> 2 ^ (LENGTH('a) - 1)"
    using sint_ge[of v] sint_lt[of v] by simp
  then have "?n \<le> 2 ^ (LENGTH('a) - 1)" by (simp add: nat_le_iff)
  then have "ndigits ?n \<le> ndigits (2 ^ (LENGTH('a) - 1))" by (rule ndigits_mono)
  then have room: "Suc (ndigits ?n) \<le> cap" using cap by (simp add: max_chars10_def)
  then have p1: "ndigits (unat (absu v)) \<le> cap" by (simp add: unat_absu)
  have p2: "cap \<le> length (replicate cap (CHR 0x00))" by simp
  from write_digits_decimal[OF len p1 p2]
  obtain sb where sb: "write_digits (replicate cap (CHR 0x00)) cap (absu v) = Some (sb, cap - ndigits ?n)"
    "length sb = cap"
    "drop (cap - ndigits ?n) sb = decimal ?n"
    by (auto simp: unat_absu)
  show ?thesis
  proof (cases "sint v < 0")
    case False
    with sb show ?thesis by (simp add: write_int_impl_def putn_def)
  next
    case True
    let ?p = "cap - ndigits ?n"
    have pos: "0 < ?p" and lt: "?p - 1 < length sb" using room sb(2) by simp_all
    have suc: "Suc (?p - 1) = ?p" using pos by simp
    have "drop (?p - 1) (sb[?p - 1 := CHR ''-'']) = CHR ''-'' # drop (Suc (?p - 1)) sb"
      using lt by (simp add: Cons_nth_drop_Suc[symmetric])
    then have "drop (?p - 1) (sb[?p - 1 := CHR ''-'']) = CHR ''-'' # drop ?p sb"
      by (simp only: suc)
    with True sb pos show ?thesis by (simp add: write_int_impl_def putn_def)
  qed
qed

lemma decimal_eq_zero_iff: "decimal n = ''0'' \<longleftrightarrow> n = 0"
proof
  assume "decimal n = ''0''"
  then have "decimal_value (decimal n) = decimal_value ''0''" by simp
  then show "n = 0" by (simp add: decimal_value_decimal) (simp add: decimal_value_def digit_value_def)
next
  assume "n = 0" then show "decimal n = ''0''" by (simp add: decimal_zero)
qed

lemma hd_decimal_zero_iff: "hd (decimal n) = CHR ''0'' \<longleftrightarrow> n = 0"
  using decimal_no_leading_zero[of n] by (cases "n = 0") (simp_all add: decimal_zero)

lemma digit_char_simps:
  "digit_char 0 = CHR ''0''" "digit_char 1 = CHR ''1''" "digit_char 2 = CHR ''2''"
  "digit_char 3 = CHR ''3''" "digit_char 4 = CHR ''4''" "digit_char 5 = CHR ''5''"
  "digit_char 6 = CHR ''6''" "digit_char 7 = CHR ''7''" "digit_char 8 = CHR ''8''"
  "digit_char 9 = CHR ''9''" "digit_char (Suc 0) = CHR ''1''"
  by (simp_all add: digit_char_def char_of_eq_iff)

subsection \<open>Unsigned integers\<close>

text \<open>
  C7. For every unsigned integer value \<open>v\<close> of a width that holds the constant 10 (every
  C++ integer type has at least 8 bits), and every buffer capacity that is at least
  the width's maximum decimal digit count, \<^verbatim>\<open>write_uint_impl\<close> never writes outside
  the buffer and appends to the stream exactly the decimal representation of \<open>v\<close>:
  a string of digits that denotes \<open>v\<close>, whose first digit is \<^verbatim>\<open>0\<close> only for
  \<open>v = 0\<close>, which is written as the single character \<^verbatim>\<open>0\<close>.
\<close>

theorem write_uint_impl_decimal:
  fixes v :: "'a::len word"
  assumes "4 \<le> LENGTH('a)" and "max_chars10 False LENGTH('a) \<le> cap"
  shows "write_uint_impl cap stream v = (None, stream @ decimal (unat v))
    \<and> decimal_value (decimal (unat v)) = unat v
    \<and> list_all is_digit (decimal (unat v))
    \<and> (hd (decimal (unat v)) = CHR ''0'') = (v = 0)
    \<and> (decimal (unat v) = ''0'') = (v = 0)"
  using assms
  by (simp add: write_uint_impl_decimal_cap decimal_value_decimal decimal_digits
      hd_decimal_zero_iff decimal_eq_zero_iff unat_eq_0)

theorem write_uint_impl_decimal_witness:
  "4 \<le> LENGTH(32) \<and> max_chars10 False LENGTH(32) \<le> max_chars10 False 32
   \<and> write_uint_impl (max_chars10 False 32) ''n='' (4294967295 :: 32 word) = (None, ''n=4294967295'')
   \<and> decimal_value ''4294967295'' = 4294967295"
  using write_uint_impl_decimal[where 'a = 32 and cap = "max_chars10 False 32"
      and stream = "''n=''" and v = "4294967295"]
  by (simp add: decimal.simps digit_char_simps decimal_value_def digit_value_def)

subsection \<open>Signed integers\<close>

text \<open>
  C6. For every signed integer value \<open>v\<close> of a width that holds the constant 10, the
  minimal value included, \<^verbatim>\<open>absu\<close> yields the magnitude \<open>\<bar>sint v\<bar>\<close> as an unsigned
  value of the same width, without wrapping; and with a buffer that holds the sign and
  the digits of the width's largest magnitude, \<^verbatim>\<open>write_int_impl\<close> appends to the
  stream the decimal representation of that magnitude, preceded by \<^verbatim>\<open>-\<close> exactly
  when \<open>v\<close> is negative.
\<close>

theorem write_int_impl_decimal:
  fixes v :: "'a::len word"
  assumes "4 \<le> LENGTH('a)" and "max_chars10 True LENGTH('a) \<le> cap"
  shows "unat (absu v) = nat \<bar>sint v\<bar>
    \<and> write_int_impl cap stream v =
        (None, stream @ (if sint v < 0 then ''-'' else []) @ decimal (nat \<bar>sint v\<bar>))
    \<and> decimal_value (decimal (nat \<bar>sint v\<bar>)) = nat \<bar>sint v\<bar>
    \<and> list_all is_digit (decimal (nat \<bar>sint v\<bar>))
    \<and> (hd (decimal (nat \<bar>sint v\<bar>)) = CHR ''0'') = (v = 0)"
proof -
  have "(nat \<bar>sint v\<bar> = 0) = (v = 0)" by (simp add: signed_eq_0_iff)
  with assms show ?thesis
    by (simp add: write_int_impl_decimal_cap unat_absu decimal_value_decimal decimal_digits
        hd_decimal_zero_iff del: nat_eq_iff nat_0_iff)
qed

theorem write_int_impl_decimal_witness:
  "4 \<le> LENGTH(32) \<and> max_chars10 True LENGTH(32) \<le> max_chars10 True 32
   \<and> sint (- 2147483648 :: 32 word) = - 2147483648
   \<and> unat (absu (- 2147483648 :: 32 word)) = 2147483648
   \<and> write_int_impl (max_chars10 True 32) ''n='' (- 2147483648 :: 32 word) = (None, ''n=-2147483648'')"
  using write_int_impl_decimal[where 'a = 32 and cap = "max_chars10 True 32"
      and stream = "''n=''" and v = "- 2147483648"]
  by (simp add: decimal.simps digit_char_simps decimal_value_def digit_value_def)

section \<open>Properties of the writer\<close>

lemmas op_defs = seq_def raise_def raw_def raw_try_def push_def pop_def assert_rule_def
  end_child_node_def start_node_def end_node_def write_separator_def
  start_object_def start_array_def end_object_def end_array_def
  write_key_impl_def write_value_impl_def item_separator_if_children_def
  write_key_value_impl_def write_key_def write_value_def write_key_value_def
  write_newline_def write_whitespace_def ascii_writer_def new_node_def

lemmas raw_defs = put_def putn_def put_count_def write_start_object_def write_end_object_def
  write_start_array_def write_end_array_def write_key_separator_def write_item_separator_def
  write_bool_def write_null_def raw_write_newline_def raw_write_whitespace_def
  write_string_def write_string_from_def escape_char_def


subsection \<open>The node stack stays well-formed\<close>

lemma seq_None: "seq f g w = (None, w') \<longleftrightarrow> (\<exists>w1. f w = (None, w1) \<and> g w1 = (None, w'))"
  by (auto simp: seq_def split: prod.splits option.splits)

lemma raw_nodes: "raw f w = (e, w') \<Longrightarrow> m_nodes w' = m_nodes w \<and> e = None"
  by (auto simp: raw_def)

lemma raw_try_nodes: "raw_try f w = (e, w') \<Longrightarrow> m_nodes w' = m_nodes w"
  by (auto simp: raw_try_def split: prod.splits)

lemma write_separator_nodes: "write_separator w = (e, w') \<Longrightarrow> m_nodes w' = m_nodes w"
  by (auto simp: write_separator_def raw_def split: list.splits if_splits doc_node_t.splits)

lemma item_separator_nodes: "item_separator_if_children w = (e, w') \<Longrightarrow> m_nodes w' = m_nodes w"
  by (auto simp: item_separator_if_children_def raw_def split: list.splits if_splits)

lemma assert_rule_None: "assert_rule ts w = (None, w') \<Longrightarrow> w' = w \<and> assert_rule_nodes ts (m_nodes w) = None"
  by (auto simp: assert_rule_def)

lemma wf_nodes_update_top:
  "wf_nodes (n # rest) \<Longrightarrow> type n \<noteq> DOCNODE_key \<Longrightarrow> wf_nodes (n\<lparr>has_children := True\<rparr> # rest)"
  by (cases rest) (auto split: doc_node_t.splits)

lemma wf_nodes_key_below:
  "wf_nodes (n # rest) \<Longrightarrow> type n = DOCNODE_key \<Longrightarrow>
     \<exists>m below. rest = m # below \<and> type m = DOCNODE_object \<and> \<not> has_children n"
  by (cases rest) auto

lemma end_child_node_wf:
  assumes "wf_nodes (m_nodes w)" and "end_child_node w = (None, w')"
  shows "wf_nodes (m_nodes w')"
proof (cases "m_nodes w")
  case Nil
  with assms show ?thesis by simp
next
  case (Cons n rest)
  show ?thesis
  proof (cases "type n = DOCNODE_key")
    case True
    with assms(1) Cons obtain m below where r: "rest = m # below" "type m = DOCNODE_object"
      using wf_nodes_key_below by metis
    have "wf_nodes (m # below)" using assms(1) Cons r by simp
    then have "wf_nodes (m\<lparr>has_children := True\<rparr> # below)"
      using r(2) by (intro wf_nodes_update_top) simp_all
    with assms(2) Cons True r show ?thesis by (auto simp: end_child_node_def)
  next
    case False
    have "wf_nodes (n\<lparr>has_children := True\<rparr> # rest)"
      using assms(1) Cons False by (intro wf_nodes_update_top) simp_all
    with assms(2) Cons False show ?thesis by (auto simp: end_child_node_def)
  qed
qed

lemma push_container_wf:
  "wf_nodes nodes \<Longrightarrow> t = DOCNODE_object \<or> t = DOCNODE_array \<Longrightarrow> wf_nodes (new_node t # nodes)"
  by (cases nodes) (auto simp: new_node_def)

lemma push_key_wf:
  "wf_nodes nodes \<Longrightarrow> assert_rule_nodes [DOCNODE_key] nodes = None \<Longrightarrow> wf_nodes (new_node DOCNODE_key # nodes)"
  by (cases nodes) (auto simp: new_node_def split: if_splits)

lemma start_node_wf:
  assumes "wf_nodes (m_nodes w)" and "start_node t (seq write_separator (raw f)) w = (None, w')"
    and "t = DOCNODE_object \<or> t = DOCNODE_array"
  shows "wf_nodes (m_nodes w')"
proof -
  from assms(2) obtain w1 w2 where
    "write_separator w = (None, w1)" "raw f w1 = (None, w2)" "push (new_node t) w2 = (None, w')"
    by (auto simp: start_node_def seq_None dest!: assert_rule_None)
  then have "m_nodes w' = new_node t # m_nodes w"
    by (auto simp: push_def dest!: write_separator_nodes raw_nodes)
  with assms(1,3) show ?thesis by (simp add: push_container_wf)
qed

lemma end_node_wf:
  assumes "wf_nodes (m_nodes w)" and "end_node t (raw f) w = (None, w')"
    and "t = DOCNODE_object \<or> t = DOCNODE_array"
  shows "wf_nodes (m_nodes w')"
proof -
  from assms(2) obtain n rest where n: "m_nodes w = n # rest" "type n = t"
    and s: "seq (raw f) (seq pop end_child_node) w = (None, w')"
    by (auto simp: end_node_def split: list.splits if_splits)
  from s obtain w1 w2 where st: "raw f w = (None, w1)" "pop w1 = (None, w2)" "end_child_node w2 = (None, w')"
    by (auto simp: seq_None)
  have "m_nodes w2 = rest" using st(1,2) n by (auto simp: pop_def dest!: raw_nodes)
  moreover have "wf_nodes rest" using assms(1,3) n by (cases rest) auto
  ultimately show ?thesis using st(3) end_child_node_wf by metis
qed

lemma write_key_wf:
  assumes "wf_nodes (m_nodes w)" and "write_key key w = (None, w')"
  shows "wf_nodes (m_nodes w')"
proof -
  from assms(2) obtain w1 w2 where
    a: "assert_rule_nodes [DOCNODE_key] (m_nodes w) = None" and
    "write_separator w = (None, w1)" "raw (write_string key) w1 = (None, w2)"
    "push (new_node DOCNODE_key) w2 = (None, w')"
    by (auto simp: write_key_def write_key_impl_def raise_def seq_None split: if_splits dest!: assert_rule_None)
  then have "m_nodes w' = new_node DOCNODE_key # m_nodes w"
    by (auto simp: push_def dest!: write_separator_nodes raw_nodes)
  with assms(1) a show ?thesis by (simp add: push_key_wf)
qed

lemma write_value_wf:
  assumes "wf_nodes (m_nodes w)" and "write_value fmt v w = (None, w')"
  shows "wf_nodes (m_nodes w')"
proof -
  from assms(2) obtain w1 w2 where
    "write_separator w = (None, w1)" "raw_try (write_t fmt v) w1 = (None, w2)"
    "end_child_node w2 = (None, w')"
    by (auto simp: write_value_def write_value_impl_def seq_None dest!: assert_rule_None)
  then have "m_nodes w2 = m_nodes w" "end_child_node w2 = (None, w')"
    by (auto dest!: write_separator_nodes raw_try_nodes)
  with assms(1) show ?thesis using end_child_node_wf by metis
qed

lemma write_key_value_wf:
  assumes "wf_nodes (m_nodes w)" and "write_key_value fmt key v w = (None, w')"
  shows "wf_nodes (m_nodes w')"
proof -
  from assms(2) obtain w1 w2 w3 w4 where
    "item_separator_if_children w = (None, w1)" "raw (write_string key) w1 = (None, w2)"
    "raw write_key_separator w2 = (None, w3)" "raw_try (write_t fmt v) w3 = (None, w4)"
    "end_child_node w4 = (None, w')"
    by (auto simp: write_key_value_def write_key_value_impl_def raise_def seq_None
        split: if_splits dest!: assert_rule_None)
  then have "m_nodes w4 = m_nodes w" "end_child_node w4 = (None, w')"
    by (auto dest!: item_separator_nodes raw_try_nodes raw_nodes)
  with assms(1) show ?thesis using end_child_node_wf by metis
qed

lemma exec_wf:
  assumes "wf_nodes (m_nodes w)" and "exec fmt c w = (None, w')"
  shows "wf_nodes (m_nodes w')"
proof (cases c)
  case StartObject
  with assms show ?thesis by (auto simp: start_object_def intro: start_node_wf)
next
  case StartArray
  with assms show ?thesis by (auto simp: start_array_def intro: start_node_wf)
next
  case EndObject
  with assms show ?thesis by (auto simp: end_object_def intro: end_node_wf)
next
  case EndArray
  with assms show ?thesis by (auto simp: end_array_def intro: end_node_wf)
next
  case (WriteKey key)
  with assms show ?thesis by (auto intro: write_key_wf)
next
  case (WriteValue v)
  with assms show ?thesis by (auto intro: write_value_wf)
next
  case (WriteKeyValue key v)
  with assms show ?thesis by (auto intro: write_key_value_wf)
next
  case WriteNewline
  with assms show ?thesis by (auto simp: write_newline_def dest!: raw_nodes)
next
  case (WriteWhitespace n)
  with assms show ?thesis by (auto simp: write_whitespace_def dest!: raw_nodes)
qed

lemma run_wf:
  "wf_nodes (m_nodes w) \<Longrightarrow> run fmt cs w = (None, w') \<Longrightarrow> wf_nodes (m_nodes w')"
proof (induction cs arbitrary: w)
  case Nil
  then show ?case by simp
next
  case (Cons c cs)
  from Cons.prems(2) obtain w1 where "exec fmt c w = (None, w1)" "run fmt cs w1 = (None, w')"
    by (auto simp: seq_None)
  with Cons.IH Cons.prems(1) exec_wf show ?case by blast
qed

lemma wf_ascii_writer: "wf_nodes (m_nodes (ascii_writer stream))"
  by (simp add: ascii_writer_def new_node_def)

lemma write_separator_wf:
  assumes "wf_nodes (m_nodes w)"
  shows "\<exists>tp rest. m_nodes w = tp # rest \<and> write_separator w =
    (if has_children tp \<and> (type tp = DOCNODE_object \<or> type tp = DOCNODE_array)
       then (None, w\<lparr>m_stream := m_stream w @ '',''\<rparr>)
     else if type tp = DOCNODE_key
       then (None, w\<lparr>m_stream := m_stream w @ '':''\<rparr>)
     else if type tp = DOCNODE_root \<and> has_children tp
       then (Some GrammarViolation, w)
     else (None, w))"
proof (cases "m_nodes w")
  case Nil
  with assms show ?thesis by simp
next
  case (Cons tp rest)
  have k: "type tp = DOCNODE_key \<Longrightarrow> \<not> has_children tp"
    using assms Cons wf_nodes_key_below by metis
  have v: "type tp \<noteq> DOCNODE_value"
    using assms Cons by (cases rest) (auto split: doc_node_t.splits)
  show ?thesis using Cons k v
    by (cases "type tp")
      (auto simp: write_separator_def raw_def write_item_separator_def write_key_separator_def put_def)
qed

lemma write_t_floating: "write_t fmt (floating_value x) stream = write_floating_impl fmt stream x"
  by (cases x) simp_all

lemma write_t_error:
  "fst (write_t fmt v stream) = None \<or> fst (write_t fmt v stream) = Some InvalidNumericValue"
proof (cases v)
  case (VNumber n)
  then show ?thesis
    by (cases n) (simp_all add: write_floating_impl_def write_int_impl_decimal_cap write_uint_impl_decimal_cap)
qed (simp_all add: write_floating_impl_def write_int_impl_decimal_cap write_uint_impl_decimal_cap)

lemma second_root:
  assumes "fst (write_value fmt v1 (ascii_writer stream)) = None"
  shows "fst (write_separator (snd (write_value fmt v1 (ascii_writer stream)))) = Some GrammarViolation
    \<and> seq (write_value fmt v1) (write_value fmt v2) (ascii_writer stream)
        = (Some GrammarViolation, snd (write_value fmt v1 (ascii_writer stream)))"
  using assms
  by (auto simp: op_defs split: prod.splits option.splits)


lemma wf_top:
  assumes "wf_nodes (m_nodes w)"
  shows "\<exists>tp rest. m_nodes w = tp # rest \<and> type tp \<noteq> DOCNODE_value
    \<and> (type tp = DOCNODE_key \<longrightarrow> \<not> has_children tp)"
proof (cases "m_nodes w")
  case Nil
  with assms show ?thesis by simp
next
  case (Cons tp rest)
  with assms show ?thesis by (cases rest) (auto split: doc_node_t.splits)
qed

lemma child_emission_wf:
  assumes "m_nodes w = tp # rest" and "type tp \<noteq> DOCNODE_value"
    and "type tp = DOCNODE_key \<longrightarrow> \<not> has_children tp"
  shows "start_object w =
      (if rule_ok DOCNODE_object tp
       then (None, w\<lparr>m_nodes := new_node DOCNODE_object # m_nodes w,
                       m_stream := m_stream w @ separator_due tp @ ''{''\<rparr>)
       else (Some GrammarViolation, w))"
    and "start_array w =
      (if rule_ok DOCNODE_array tp
       then (None, w\<lparr>m_nodes := new_node DOCNODE_array # m_nodes w,
                       m_stream := m_stream w @ separator_due tp @ ''[''\<rparr>)
       else (Some GrammarViolation, w))"
    and "write_key key w =
      (if key = None then (Some NullKey, w)
       else if rule_ok DOCNODE_key tp
       then (None, w\<lparr>m_nodes := new_node DOCNODE_key # m_nodes w,
                       m_stream := write_string key (m_stream w @ separator_due tp)\<rparr>)
       else (Some GrammarViolation, w))"
    and "write_value fmt v w =
      (if rule_ok DOCNODE_value tp
       then (case write_t fmt v (m_stream w @ separator_due tp) of
               (None, s) \<Rightarrow> end_child_node (w\<lparr>m_stream := s\<rparr>)
             | (Some e, s) \<Rightarrow> (Some e, w\<lparr>m_stream := s\<rparr>))
       else (Some GrammarViolation, w))"
    and "write_key_value fmt key v w =
      (if key = None then (Some NullKey, w)
       else if rule_ok DOCNODE_key tp
       then (case write_t fmt v (write_string key (m_stream w @ separator_due tp) @ '':'') of
               (None, s) \<Rightarrow> end_child_node (w\<lparr>m_stream := s\<rparr>)
             | (Some e, s) \<Rightarrow> (Some e, w\<lparr>m_stream := s\<rparr>))
       else (Some GrammarViolation, w))"
  using assms
  by (cases "type tp"; cases "has_children tp";
      simp add: op_defs separator_due_def put_def write_item_separator_def write_key_separator_def
        write_start_object_def write_start_array_def split: prod.splits option.splits)+

subsection \<open>Separators\<close>

text \<open>
  C4. In every state that a sequence of successful calls reaches from a new writer, the
  stack has a top node \<open>tp\<close>, and a \<^verbatim>\<open>KEY\<close> top has no children.
  \<^verbatim>\<open>write_separator\<close> writes \<^verbatim>\<open>,\<close> when the top is an \<^verbatim>\<open>OBJECT\<close> or
  \<^verbatim>\<open>ARRAY\<close> with children, writes \<^verbatim>\<open>:\<close> when the top is a \<^verbatim>\<open>KEY\<close>, fails with
  \<open>GrammarViolation\<close> and writes nothing when the top is the \<^verbatim>\<open>ROOT\<close> with children,
  and otherwise writes nothing and succeeds. Every call that emits a child
  (\<^verbatim>\<open>start_object\<close>, \<^verbatim>\<open>start_array\<close>, \<^verbatim>\<open>write_key\<close>, \<^verbatim>\<open>write_value\<close>,
  \<^verbatim>\<open>write_key_value\<close>), where the grammar accepts it, writes exactly that separator
  \<open>separator_due tp\<close> and then the child's bytes: the bracket, the quoted key, the
  value's text, or the key, \<^verbatim>\<open>:\<close> and the value's text; where the grammar rejects it,
  as it does under a \<^verbatim>\<open>ROOT\<close> with children, the call fails with
  \<open>GrammarViolation\<close> and writes nothing. After a successful \<^verbatim>\<open>write_value\<close> on a
  new writer the root has a child: \<^verbatim>\<open>write_separator\<close> fails there with
  \<open>GrammarViolation\<close>, and a second \<^verbatim>\<open>write_value\<close> fails with
  \<open>GrammarViolation\<close> and changes nothing.
\<close>

theorem write_separator_decision:
  assumes "run fmt calls (ascii_writer stream) = (None, w)"
  shows "(\<exists>tp rest. m_nodes w = tp # rest
      \<and> (type tp = DOCNODE_key \<longrightarrow> \<not> has_children tp)
      \<and> write_separator w =
          (if has_children tp \<and> (type tp = DOCNODE_object \<or> type tp = DOCNODE_array)
             then (None, w\<lparr>m_stream := m_stream w @ '',''\<rparr>)
           else if type tp = DOCNODE_key
             then (None, w\<lparr>m_stream := m_stream w @ '':''\<rparr>)
           else if type tp = DOCNODE_root \<and> has_children tp
             then (Some GrammarViolation, w)
           else (None, w))
      \<and> (type tp = DOCNODE_root \<and> has_children tp \<longrightarrow>
            \<not> rule_ok DOCNODE_object tp \<and> \<not> rule_ok DOCNODE_array tp \<and> \<not> rule_ok DOCNODE_value tp)
      \<and> start_object w =
          (if rule_ok DOCNODE_object tp
           then (None, w\<lparr>m_nodes := new_node DOCNODE_object # m_nodes w,
                           m_stream := m_stream w @ separator_due tp @ ''{''\<rparr>)
           else (Some GrammarViolation, w))
      \<and> start_array w =
          (if rule_ok DOCNODE_array tp
           then (None, w\<lparr>m_nodes := new_node DOCNODE_array # m_nodes w,
                           m_stream := m_stream w @ separator_due tp @ ''[''\<rparr>)
           else (Some GrammarViolation, w))
      \<and> write_key key w =
          (if key = None then (Some NullKey, w)
           else if rule_ok DOCNODE_key tp
           then (None, w\<lparr>m_nodes := new_node DOCNODE_key # m_nodes w,
                           m_stream := write_string key (m_stream w @ separator_due tp)\<rparr>)
           else (Some GrammarViolation, w))
      \<and> write_value fmt v w =
          (if rule_ok DOCNODE_value tp
           then (case write_t fmt v (m_stream w @ separator_due tp) of
                   (None, s) \<Rightarrow> end_child_node (w\<lparr>m_stream := s\<rparr>)
                 | (Some e, s) \<Rightarrow> (Some e, w\<lparr>m_stream := s\<rparr>))
           else (Some GrammarViolation, w))
      \<and> write_key_value fmt key v w =
          (if key = None then (Some NullKey, w)
           else if rule_ok DOCNODE_key tp
           then (case write_t fmt v (write_string key (m_stream w @ separator_due tp) @ '':'') of
                   (None, s) \<Rightarrow> end_child_node (w\<lparr>m_stream := s\<rparr>)
                 | (Some e, s) \<Rightarrow> (Some e, w\<lparr>m_stream := s\<rparr>))
           else (Some GrammarViolation, w)))
    \<and> (fst (write_value fmt v1 (ascii_writer stream)) = None \<longrightarrow>
         fst (write_separator (snd (write_value fmt v1 (ascii_writer stream)))) = Some GrammarViolation
         \<and> seq (write_value fmt v1) (write_value fmt v2) (ascii_writer stream)
             = (Some GrammarViolation, snd (write_value fmt v1 (ascii_writer stream))))"
proof -
  have wf: "wf_nodes (m_nodes w)"
    using wf_ascii_writer assms by (rule run_wf)
  from wf_top[OF wf] obtain tp rest where
    tp: "m_nodes w = tp # rest" and nv: "type tp \<noteq> DOCNODE_value"
    and key: "type tp = DOCNODE_key \<longrightarrow> \<not> has_children tp"
    by blast
  from write_separator_wf[OF wf] tp have
    sep: "write_separator w =
          (if has_children tp \<and> (type tp = DOCNODE_object \<or> type tp = DOCNODE_array)
             then (None, w\<lparr>m_stream := m_stream w @ '',''\<rparr>)
           else if type tp = DOCNODE_key
             then (None, w\<lparr>m_stream := m_stream w @ '':''\<rparr>)
           else if type tp = DOCNODE_root \<and> has_children tp
             then (Some GrammarViolation, w)
           else (None, w))"
    by auto
  have root: "type tp = DOCNODE_root \<and> has_children tp \<longrightarrow>
      \<not> rule_ok DOCNODE_object tp \<and> \<not> rule_ok DOCNODE_array tp \<and> \<not> rule_ok DOCNODE_value tp"
    by simp
  note calls = child_emission_wf[OF tp nv key]
  from tp key sep root calls second_root[OF _] show ?thesis by blast
qed

theorem write_separator_decision_witness:
  "run (\<lambda>x. []) [StartArray, WriteValue (VBool True)] (ascii_writer [])
     = (None, \<lparr>m_nodes = [\<lparr>type = DOCNODE_array, has_children = True\<rparr>,
                \<lparr>type = DOCNODE_root, has_children = False\<rparr>], m_stream = ''[true''\<rparr>)
   \<and> write_separator \<lparr>m_nodes = [\<lparr>type = DOCNODE_array, has_children = True\<rparr>,
                \<lparr>type = DOCNODE_root, has_children = False\<rparr>], m_stream = ''[true''\<rparr>
     = (None, \<lparr>m_nodes = [\<lparr>type = DOCNODE_array, has_children = True\<rparr>,
                \<lparr>type = DOCNODE_root, has_children = False\<rparr>], m_stream = ''[true,''\<rparr>)
   \<and> start_object \<lparr>m_nodes = [\<lparr>type = DOCNODE_array, has_children = True\<rparr>,
                \<lparr>type = DOCNODE_root, has_children = False\<rparr>], m_stream = ''[true''\<rparr>
     = (None, \<lparr>m_nodes = [\<lparr>type = DOCNODE_object, has_children = False\<rparr>,
                \<lparr>type = DOCNODE_array, has_children = True\<rparr>,
                \<lparr>type = DOCNODE_root, has_children = False\<rparr>], m_stream = ''[true,{''\<rparr>)
   \<and> write_value (\<lambda>x. []) (VBool False) \<lparr>m_nodes = [\<lparr>type = DOCNODE_array, has_children = True\<rparr>,
                \<lparr>type = DOCNODE_root, has_children = False\<rparr>], m_stream = ''[true''\<rparr>
     = (None, \<lparr>m_nodes = [\<lparr>type = DOCNODE_array, has_children = True\<rparr>,
                \<lparr>type = DOCNODE_root, has_children = False\<rparr>], m_stream = ''[true,false''\<rparr>)
   \<and> run (\<lambda>x. []) [StartObject, WriteKeyValue (Some ''a'') VNull, WriteKey (Some ''b'')] (ascii_writer [])
     = (None, \<lparr>m_nodes = [\<lparr>type = DOCNODE_key, has_children = False\<rparr>,
                \<lparr>type = DOCNODE_object, has_children = True\<rparr>,
                \<lparr>type = DOCNODE_root, has_children = False\<rparr>],
          m_stream = [CHR ''{'', CHR 0x22, CHR ''a'', CHR 0x22, CHR '':'', CHR ''n'', CHR ''u'',
                      CHR ''l'', CHR ''l'', CHR '','', CHR 0x22, CHR ''b'', CHR 0x22]\<rparr>)
   \<and> start_array \<lparr>m_nodes = [\<lparr>type = DOCNODE_key, has_children = False\<rparr>,
                \<lparr>type = DOCNODE_object, has_children = True\<rparr>,
                \<lparr>type = DOCNODE_root, has_children = False\<rparr>],
          m_stream = [CHR ''{'', CHR 0x22, CHR ''a'', CHR 0x22, CHR '':'', CHR ''n'', CHR ''u'',
                      CHR ''l'', CHR ''l'', CHR '','', CHR 0x22, CHR ''b'', CHR 0x22]\<rparr>
     = (None, \<lparr>m_nodes = [\<lparr>type = DOCNODE_array, has_children = False\<rparr>,
                \<lparr>type = DOCNODE_key, has_children = False\<rparr>,
                \<lparr>type = DOCNODE_object, has_children = True\<rparr>,
                \<lparr>type = DOCNODE_root, has_children = False\<rparr>],
          m_stream = [CHR ''{'', CHR 0x22, CHR ''a'', CHR 0x22, CHR '':'', CHR ''n'', CHR ''u'',
                      CHR ''l'', CHR ''l'', CHR '','', CHR 0x22, CHR ''b'', CHR 0x22, CHR '':'',
                      CHR ''['']\<rparr>)
   \<and> run (\<lambda>x. []) [StartObject, WriteKeyValue (Some ''a'') VNull] (ascii_writer [])
     = (None, \<lparr>m_nodes = [\<lparr>type = DOCNODE_object, has_children = True\<rparr>,
                \<lparr>type = DOCNODE_root, has_children = False\<rparr>],
          m_stream = [CHR ''{'', CHR 0x22, CHR ''a'', CHR 0x22, CHR '':'', CHR ''n'', CHR ''u'',
                      CHR ''l'', CHR ''l'']\<rparr>)
   \<and> write_key_value (\<lambda>x. []) (Some ''b'') (VBool False)
       \<lparr>m_nodes = [\<lparr>type = DOCNODE_object, has_children = True\<rparr>,
                \<lparr>type = DOCNODE_root, has_children = False\<rparr>],
          m_stream = [CHR ''{'', CHR 0x22, CHR ''a'', CHR 0x22, CHR '':'', CHR ''n'', CHR ''u'',
                      CHR ''l'', CHR ''l'']\<rparr>
     = (None, \<lparr>m_nodes = [\<lparr>type = DOCNODE_object, has_children = True\<rparr>,
                \<lparr>type = DOCNODE_root, has_children = False\<rparr>],
          m_stream = [CHR ''{'', CHR 0x22, CHR ''a'', CHR 0x22, CHR '':'', CHR ''n'', CHR ''u'',
                      CHR ''l'', CHR ''l'', CHR '','', CHR 0x22, CHR ''b'', CHR 0x22, CHR '':'',
                      CHR ''f'', CHR ''a'', CHR ''l'', CHR ''s'', CHR ''e'']\<rparr>)
   \<and> fst (write_value (\<lambda>x. []) VNull (ascii_writer [])) = None
   \<and> seq (write_value (\<lambda>x. []) VNull) (write_value (\<lambda>x. []) (VBool False)) (ascii_writer [])
     = (Some GrammarViolation,
        \<lparr>m_nodes = [\<lparr>type = DOCNODE_root, has_children = True\<rparr>], m_stream = ''null''\<rparr>)"
  using write_separator_decision[where fmt = "\<lambda>x. []"
      and calls = "[StartObject, WriteKeyValue (Some ''a'') VNull]"
      and stream = "[]" and ?v1.0 = VNull and ?v2.0 = "VBool False" and v = "VBool False"
      and key = "Some ''b''"]
    write_separator_decision[where fmt = "\<lambda>x. []" and calls = "[StartArray, WriteValue (VBool True)]"
      and stream = "[]" and ?v1.0 = VNull and ?v2.0 = "VBool False" and v = "VBool False"
      and key = "Some ''b''"]
    write_separator_decision[where fmt = "\<lambda>x. []"
      and calls = "[StartObject, WriteKeyValue (Some ''a'') VNull, WriteKey (Some ''b'')]"
      and stream = "[]" and ?v1.0 = VNull and ?v2.0 = "VBool False" and v = "VBool False"
      and key = "Some ''b''"]
  by (simp add: op_defs raw_defs)

subsection \<open>Non-finite floating-point values\<close>

text \<open>
  As C2 states it, a \<^verbatim>\<open>write_value\<close> of a NaN writes no bytes. In an array that
  already has an element it writes the item separator before the encoder throws.
\<close>

theorem write_value_nan_writes_separator:
  "run (\<lambda>x. []) [StartArray, WriteValue (VInt32 1)] (ascii_writer [])
     = (None, \<lparr>m_nodes = [\<lparr>type = DOCNODE_array, has_children = True\<rparr>,
                \<lparr>type = DOCNODE_root, has_children = False\<rparr>], m_stream = ''[1''\<rparr>)
   \<and> write_value (\<lambda>x. []) (VDouble 0x7FF8000000000000)
       \<lparr>m_nodes = [\<lparr>type = DOCNODE_array, has_children = True\<rparr>,
                \<lparr>type = DOCNODE_root, has_children = False\<rparr>], m_stream = ''[1''\<rparr>
     = (Some InvalidNumericValue,
        \<lparr>m_nodes = [\<lparr>type = DOCNODE_array, has_children = True\<rparr>,
                \<lparr>type = DOCNODE_root, has_children = False\<rparr>], m_stream = ''[1,''\<rparr>)"
  by (simp add: op_defs raw_defs write_int_impl_decimal_cap decimal.simps digit_char_simps
      write_floating_impl_def)

text \<open>
  C2, amended. For every \<^verbatim>\<open>float\<close> or \<^verbatim>\<open>double\<close> \<open>x\<close> that is NaN or infinite,
  \<^verbatim>\<open>write_floating_impl\<close> fails with \<open>InvalidNumericValue\<close> and leaves the stream as
  it was; for every finite \<open>x\<close> it succeeds and appends the text of \<open>x\<close>. Where the
  grammar accepts a value and \<^verbatim>\<open>write_separator\<close> succeeds, \<^verbatim>\<open>write_value\<close> of a
  non-finite \<open>x\<close> fails with \<open>InvalidNumericValue\<close> in the state that
  \<^verbatim>\<open>write_separator\<close> left: the node stack is unchanged and the stream has gained
  nothing, or the one separator \<^verbatim>\<open>,\<close> or \<^verbatim>\<open>:\<close>. \<^verbatim>\<open>write_value\<close> of a finite
  \<open>x\<close> never fails with \<open>InvalidNumericValue\<close>.
\<close>

theorem nonfinite_floating_rejected:
  "(\<not> isfinite x \<longrightarrow> write_floating_impl fmt stream x = (Some InvalidNumericValue, stream))
   \<and> (isfinite x \<longrightarrow> write_floating_impl fmt stream x = (None, stream @ fmt x))
   \<and> (\<not> isfinite x \<and> assert_rule [DOCNODE_value] w = (None, w) \<and> write_separator w = (None, w1)
        \<longrightarrow> write_value fmt (floating_value x) w = (Some InvalidNumericValue, w1)
          \<and> m_nodes w1 = m_nodes w
          \<and> (m_stream w1 = m_stream w \<or> m_stream w1 = m_stream w @ '','' \<or> m_stream w1 = m_stream w @ '':''))
   \<and> (isfinite x \<longrightarrow> fst (write_value fmt (floating_value x) w) \<noteq> Some InvalidNumericValue)"
proof -
  have a: "\<not> isfinite x \<Longrightarrow> write_floating_impl fmt stream x = (Some InvalidNumericValue, stream)"
    by (simp add: write_floating_impl_def)
  have b: "isfinite x \<Longrightarrow> write_floating_impl fmt stream x = (None, stream @ fmt x)"
    by (simp add: write_floating_impl_def putn_def)
  have c: "write_value fmt (floating_value x) w = (Some InvalidNumericValue, w1)"
    if "\<not> isfinite x" "assert_rule [DOCNODE_value] w = (None, w)" "write_separator w = (None, w1)"
    using that
    by (simp add: write_value_def write_value_impl_def seq_def raw_try_def write_t_floating
        write_floating_impl_def)
  have d: "m_nodes w1 = m_nodes w
      \<and> (m_stream w1 = m_stream w \<or> m_stream w1 = m_stream w @ '','' \<or> m_stream w1 = m_stream w @ '':'')"
    if "write_separator w = (None, w1)"
    using that
    by (auto simp: write_separator_def raw_def write_item_separator_def write_key_separator_def put_def
        split: list.splits if_splits doc_node_t.splits)
  have e: "fst (write_value fmt (floating_value x) w) \<noteq> Some InvalidNumericValue" if "isfinite x"
  proof -
    have "fst (end_child_node w') \<noteq> Some InvalidNumericValue" for w'
      by (auto simp: end_child_node_def split: list.splits)
    moreover have "fst (write_separator w') \<noteq> Some InvalidNumericValue" for w'
      by (auto simp: write_separator_def raw_def split: list.splits doc_node_t.splits)
    moreover have "fst (assert_rule ts w') \<noteq> Some InvalidNumericValue" for ts w'
    proof -
      have "assert_rule_nodes ts ns \<noteq> Some InvalidNumericValue" for ns
        by (induction ts ns rule: assert_rule_nodes.induct) auto
      then show ?thesis by (simp add: assert_rule_def)
    qed
    moreover have "fst (raw_try (write_t fmt (floating_value x)) w') = None" for w'
      using that by (simp add: raw_try_def write_t_floating write_floating_impl_def)
    ultimately show ?thesis
      by (auto simp: write_value_def write_value_impl_def seq_def split: prod.splits option.splits)
         (metis fst_conv)+
  qed
  from a b c d e show ?thesis by blast
qed


theorem nonfinite_floating_rejected_witness:
  "\<not> isfinite (Double 0x7FF0000000000000)
   \<and> write_floating_impl (\<lambda>x. ''1'') ''[1,'' (Double 0x7FF0000000000000)
       = (Some InvalidNumericValue, ''[1,'')
   \<and> assert_rule [DOCNODE_value] (ascii_writer []) = (None, ascii_writer [])
   \<and> write_separator (ascii_writer []) = (None, ascii_writer [])
   \<and> write_value (\<lambda>x. ''1'') (VDouble 0x7FF0000000000000) (ascii_writer [])
       = (Some InvalidNumericValue, ascii_writer [])
   \<and> isfinite (Float 0x3F800000)
   \<and> write_floating_impl (\<lambda>x. ''1'') ''[1,'' (Float 0x3F800000) = (None, ''[1,1'')
   \<and> fst (write_value (\<lambda>x. ''1'') (VFloat 0x3F800000) (ascii_writer [])) = None"
  using nonfinite_floating_rejected[where x = "Double 0x7FF0000000000000" and fmt = "\<lambda>x. ''1''"
      and stream = "''[1,''" and w = "ascii_writer []" and ?w1.0 = "ascii_writer []"]
    nonfinite_floating_rejected[where x = "Float 0x3F800000" and fmt = "\<lambda>x. ''1''"
      and stream = "''[1,''" and w = "ascii_writer []" and ?w1.0 = "ascii_writer []"]
  by (simp add: op_defs raw_defs write_floating_impl_def)

subsection \<open>The fused key-value write\<close>

text \<open>
  As C3 states it, a failing \<^verbatim>\<open>write_key_value\<close> fails before any byte is written and
  leaves the node stack that the two separate calls leave. With an infinite value in a
  new object it fails after the key and the colon are written, and the two separate
  calls leave the \<^verbatim>\<open>KEY\<close> node on the stack.
\<close>

theorem write_key_value_infinite_writes_key:
  "start_object (ascii_writer [])
     = (None, \<lparr>m_nodes = [\<lparr>type = DOCNODE_object, has_children = False\<rparr>,
                \<lparr>type = DOCNODE_root, has_children = False\<rparr>], m_stream = ''{''\<rparr>)
   \<and> write_key_value (\<lambda>x. []) (Some ''k'') (VDouble 0x7FF0000000000000)
       \<lparr>m_nodes = [\<lparr>type = DOCNODE_object, has_children = False\<rparr>,
                \<lparr>type = DOCNODE_root, has_children = False\<rparr>], m_stream = ''{''\<rparr>
     = (Some InvalidNumericValue,
        \<lparr>m_nodes = [\<lparr>type = DOCNODE_object, has_children = False\<rparr>,
                \<lparr>type = DOCNODE_root, has_children = False\<rparr>],
           m_stream = [CHR ''{'', CHR 0x22, CHR ''k'', CHR 0x22, CHR '':'']\<rparr>)
   \<and> seq (write_key (Some ''k'')) (write_value (\<lambda>x. []) (VDouble 0x7FF0000000000000))
       \<lparr>m_nodes = [\<lparr>type = DOCNODE_object, has_children = False\<rparr>,
                \<lparr>type = DOCNODE_root, has_children = False\<rparr>], m_stream = ''{''\<rparr>
     = (Some InvalidNumericValue,
        \<lparr>m_nodes = [\<lparr>type = DOCNODE_key, has_children = False\<rparr>,
                \<lparr>type = DOCNODE_object, has_children = False\<rparr>,
                \<lparr>type = DOCNODE_root, has_children = False\<rparr>],
           m_stream = [CHR ''{'', CHR 0x22, CHR ''k'', CHR 0x22, CHR '':'']\<rparr>)"
  by (simp add: op_defs raw_defs write_floating_impl_def)

text \<open>
  C3, amended. For every writer state, key and value, \<^verbatim>\<open>write_key_value\<close> ends with
  the same outcome (success, or the same exception) and the same output bytes as
  \<^verbatim>\<open>write_key\<close> followed by \<^verbatim>\<open>write_value\<close>; when it succeeds the whole final state,
  node stack included, is the same; and when it fails with anything but
  \<open>InvalidNumericValue\<close> (a null key, a grammar violation) it fails before any byte is
  written and with the node stack untouched. A non-finite floating-point value is
  rejected only by the encoder, after separator, key and colon have been written.
\<close>

theorem write_key_value_fused:
  "fst (write_key_value fmt key v w) = fst (seq (write_key key) (write_value fmt v) w)
   \<and> m_stream (snd (write_key_value fmt key v w)) = m_stream (snd (seq (write_key key) (write_value fmt v) w))
   \<and> (fst (write_key_value fmt key v w) = None
        \<longrightarrow> write_key_value fmt key v w = seq (write_key key) (write_value fmt v) w)
   \<and> (fst (write_key_value fmt key v w) \<noteq> None \<and> fst (write_key_value fmt key v w) \<noteq> Some InvalidNumericValue
        \<longrightarrow> snd (write_key_value fmt key v w) = w)"
proof (cases key)
  case None
  then show ?thesis by (simp add: op_defs)
next
  case (Some k)
  show ?thesis
  proof (cases "m_nodes w")
    case Nil
    with Some show ?thesis by (simp add: op_defs)
  next
    case (Cons tp rest)
    show ?thesis
    proof (cases "type tp = DOCNODE_object")
      case False
      with Some Cons show ?thesis by (simp add: op_defs)
    next
      case True
      define s3 where "s3 = write_key_separator (write_string (Some k)
        (if has_children tp then write_item_separator (m_stream w) else m_stream w))"
      obtain e s4 where wt: "write_t fmt v s3 = (e, s4)" by (cases "write_t fmt v s3")
      have e: "e = None \<or> e = Some InvalidNumericValue"
        using write_t_error[of fmt v s3] wt by simp
      have fused: "write_key_value fmt key v w =
          (case e of None \<Rightarrow> (None, w\<lparr>m_nodes := tp\<lparr>has_children := True\<rparr> # rest, m_stream := s4\<rparr>)
           | Some err \<Rightarrow> (Some err, w\<lparr>m_stream := s4\<rparr>))"
        using Some Cons True wt by (auto simp: op_defs s3_def split: option.splits)
      have twocalls: "seq (write_key key) (write_value fmt v) w =
          (case e of None \<Rightarrow> (None, w\<lparr>m_nodes := tp\<lparr>has_children := True\<rparr> # rest, m_stream := s4\<rparr>)
           | Some err \<Rightarrow> (Some err, w\<lparr>m_nodes := new_node DOCNODE_key # tp # rest, m_stream := s4\<rparr>))"
        using Some Cons True wt by (auto simp: op_defs s3_def split: option.splits)
      from e show ?thesis by (auto simp: fused twocalls)
    qed
  qed
qed

theorem write_key_value_fused_witness:
  "write_key_value (\<lambda>x. []) (Some ''ok'') (VBool True)
       \<lparr>m_nodes = [\<lparr>type = DOCNODE_object, has_children = True\<rparr>,
                \<lparr>type = DOCNODE_root, has_children = False\<rparr>], m_stream = ''{''\<rparr>
     = (None, \<lparr>m_nodes = [\<lparr>type = DOCNODE_object, has_children = True\<rparr>,
                \<lparr>type = DOCNODE_root, has_children = False\<rparr>],
          m_stream = [CHR ''{'', CHR '','', CHR 0x22, CHR ''o'', CHR ''k'', CHR 0x22, CHR '':'',
                      CHR ''t'', CHR ''r'', CHR ''u'', CHR ''e'']\<rparr>)
   \<and> seq (write_key (Some ''ok'')) (write_value (\<lambda>x. []) (VBool True))
       \<lparr>m_nodes = [\<lparr>type = DOCNODE_object, has_children = True\<rparr>,
                \<lparr>type = DOCNODE_root, has_children = False\<rparr>], m_stream = ''{''\<rparr>
     = (None, \<lparr>m_nodes = [\<lparr>type = DOCNODE_object, has_children = True\<rparr>,
                \<lparr>type = DOCNODE_root, has_children = False\<rparr>],
          m_stream = [CHR ''{'', CHR '','', CHR 0x22, CHR ''o'', CHR ''k'', CHR 0x22, CHR '':'',
                      CHR ''t'', CHR ''r'', CHR ''u'', CHR ''e'']\<rparr>)
   \<and> write_key_value (\<lambda>x. []) (Some ''ok'') (VBool True) (ascii_writer [])
     = (Some GrammarViolation, ascii_writer [])"
  using write_key_value_fused[where fmt = "\<lambda>x. []" and key = "Some ''ok''" and v = "VBool True"
      and w = "\<lparr>m_nodes = [\<lparr>type = DOCNODE_object, has_children = True\<rparr>,
                \<lparr>type = DOCNODE_root, has_children = False\<rparr>], m_stream = ''{''\<rparr>"]
    write_key_value_fused[where fmt = "\<lambda>x. []" and key = "Some ''ok''" and v = "VBool True"
      and w = "ascii_writer []"]
  by (simp add: op_defs raw_defs)

subsection \<open>Null keys\<close>

text \<open>
  C10. In every writer state, \<^verbatim>\<open>write_key\<close> and \<^verbatim>\<open>write_key_value\<close> with a null key
  fail with \<open>NullKey\<close>, whatever the node stack allows, and leave the stream and the
  node stack as they were.
\<close>

theorem null_key_precedes_grammar:
  "write_key None w = (Some NullKey, w) \<and> write_key_value fmt None v w = (Some NullKey, w)"
  by (simp add: write_key_def write_key_impl_def write_key_value_def write_key_value_impl_def
      raise_def)

theorem null_key_precedes_grammar_witness:
  "write_key (Some ''k'') (ascii_writer []) = (Some GrammarViolation, ascii_writer [])
   \<and> write_key None (ascii_writer []) = (Some NullKey, ascii_writer [])
   \<and> write_key_value (\<lambda>x. []) (Some ''k'') VNull (snd (start_array (ascii_writer [])))
       = (Some GrammarViolation, snd (start_array (ascii_writer [])))
   \<and> write_key_value (\<lambda>x. []) None VNull (snd (start_array (ascii_writer [])))
       = (Some NullKey, snd (start_array (ascii_writer [])))"
  using null_key_precedes_grammar[where w = "ascii_writer []"]
    null_key_precedes_grammar[where w = "snd (start_array (ascii_writer []))" and fmt = "\<lambda>x. []"
      and v = VNull]
  by (simp add: op_defs raw_defs)

subsection \<open>Teardown\<close>

text \<open>
  C9. For every sink and every \<^verbatim>\<open>flush\<close>, one that throws included, the destructor of
  \<^verbatim>\<open>raw_ascii_writer\<close> runs \<^verbatim>\<open>flush\<close> on the sink and ends without an exception.
\<close>

theorem dtor_never_raises:
  "raw_ascii_writer_dtor flush stream = (None, snd (flush stream))"
  by (simp add: raw_ascii_writer_dtor_def split: prod.split)

theorem dtor_never_raises_witness:
  "raw_ascii_writer_dtor (\<lambda>s. (Some UndefinedBehaviour, s)) ''{}'' = (None, ''{}'')"
  using dtor_never_raises[where flush = "\<lambda>s. (Some UndefinedBehaviour, s)" and stream = "''{}''"]
  by simp

subsection \<open>Scenarios\<close>

text \<open>
  C8. On a new writer, \<^verbatim>\<open>start_object(); write_key("x"); write_value(5); end_object();\<close>
  succeeds, the stream holds exactly \<^verbatim>\<open>{"x":5}\<close>, and the node stack is the root, marked
  as having its child.
\<close>

theorem object_with_one_member:
  "run fmt [StartObject, WriteKey (Some ''x''), WriteValue (VInt32 5), EndObject] (ascii_writer [])
     = (None, \<lparr>m_nodes = [\<lparr>type = DOCNODE_root, has_children = True\<rparr>],
          m_stream = [CHR ''{'', CHR 0x22, CHR ''x'', CHR 0x22, CHR '':'', CHR ''5'', CHR ''}'']\<rparr>)"
  by (simp add: op_defs raw_defs write_int_impl_decimal_cap decimal.simps digit_char_simps)

theorem object_with_one_member_witness:
  "m_stream (snd (run (\<lambda>x. []) [StartObject, WriteKey (Some ''x''), WriteValue (VInt32 5), EndObject]
      (ascii_writer [])))
     = [CHR ''{'', CHR 0x22, CHR ''x'', CHR 0x22, CHR '':'', CHR ''5'', CHR ''}'']"
  using object_with_one_member[where fmt = "\<lambda>x. []"]
  by simp

text \<open>
  C1. The claim fails on the code: \<^verbatim>\<open>write_value("\x01")\<close> on a new writer succeeds,
  and the stream holds the quote, the control byte 0x01 as it is, and the quote. The
  \<^verbatim>\<open>switch\<close> of \<^verbatim>\<open>write_string_from\<close> escapes five of the 32 control characters and
  passes the others through.
\<close>

theorem control_byte_written_unescaped:
  "run fmt [WriteValue (VCString (Some [CHR 0x01]))] (ascii_writer [])
     = (None, \<lparr>m_nodes = [\<lparr>type = DOCNODE_root, has_children = True\<rparr>],
          m_stream = [CHR 0x22, CHR 0x01, CHR 0x22]\<rparr>)
   \<and> is_control (CHR 0x01) \<and> escape_char (CHR 0x01) = [CHR 0x01]"
  by (simp add: op_defs raw_defs is_control_def)

end
